theory Spec2Isabelle
  imports Main
begin

section \<open>The OTP entry widget of \<^verbatim>\<open>src/App.tsx\<close>\<close>

text \<open>
  The component keeps three pieces of React state: \<^verbatim>\<open>digits\<close> (a \<^verbatim>\<open>string[]\<close>),
  \<^verbatim>\<open>selection\<close> (a \<^verbatim>\<open>Sel\<close>) and \<^verbatim>\<open>loading\<close> (a boolean). Every handler of the
  component is embedded as a function from the state to the next state. The effects the
  handlers have besides \<^verbatim>\<open>setState\<close> are recorded in further fields of the state:
  the focus requests on the hidden field, the calls of \<^verbatim>\<open>alert\<close>, the submissions
  awaiting their promise and the scheduled 50 ms callbacks.

  Numbers are modelled as \<open>int\<close>: the selection endpoints and box indices the component
  receives are integers. Strings are \<open>char list\<close>; the strings the component stores
  (the empty string and single digits) are ASCII, where a \<open>char\<close> is one UTF-16 code
  unit and \<open>length\<close> is JavaScript's \<^verbatim>\<open>.length\<close>.
\<close>

subsection \<open>JavaScript arrays of strings\<close>

text \<open>
  An element of a JavaScript array read through \<^verbatim>\<open>xs[i]\<close> is a string or
  \<^verbatim>\<open>undefined\<close> (a hole, or an index outside the array); \<open>None\<close> stands for
  \<^verbatim>\<open>undefined\<close>.
\<close>

type_synonym slot = "string option"

text \<open>\<^verbatim>\<open>xs[i]\<close>: outside \<open>0 \<dots> length - 1\<close> the read yields \<^verbatim>\<open>undefined\<close>.\<close>

definition js_index :: "slot list \<Rightarrow> int \<Rightarrow> slot" where
  "js_index xs i = (if 0 \<le> i \<and> i < int (length xs) then xs ! nat i else None)"

text \<open>
  \<^verbatim>\<open>xs[i] = v\<close>: inside the array the element is replaced; at \<open>i \<ge> length\<close> the array
  grows to length \<open>i + 1\<close>, the new elements before \<open>i\<close> being holes; at a negative
  \<open>i\<close> the assignment creates a property that is no array element, so the sequence of
  elements (all that \<^verbatim>\<open>map\<close>, \<^verbatim>\<open>join\<close>, \<^verbatim>\<open>includes\<close> and the spread
  \<^verbatim>\<open>[...xs]\<close> see) stays as it is.
\<close>

definition js_set :: "slot list \<Rightarrow> int \<Rightarrow> string \<Rightarrow> slot list" where
  "js_set xs i v =
     (if i < 0 then xs
      else if nat i < length xs then xs[nat i := Some v]
      else xs @ replicate (nat i - length xs) None @ [Some v])"

text \<open>Truthiness of \<^verbatim>\<open>xs[i]\<close>: \<^verbatim>\<open>undefined\<close> and \<^verbatim>\<open>""\<close> are falsy.\<close>

fun truthy :: "slot \<Rightarrow> bool" where
  "truthy None = False"
| "truthy (Some v) = (v \<noteq> [])"

text \<open>\<^verbatim>\<open>xs.join("")\<close>: \<^verbatim>\<open>undefined\<close> elements contribute the empty string.\<close>

fun slot_text :: "slot \<Rightarrow> string" where
  "slot_text None = []"
| "slot_text (Some v) = v"

definition join_empty :: "slot list \<Rightarrow> string" where
  "join_empty xs = concat (map slot_text xs)"

subsection \<open>State\<close>

definition OTP_LENGTH :: int where
  "OTP_LENGTH = 6"

text \<open>
  \<^verbatim>\<open>type Sel = { start: number; end: number }\<close>; the field \<^verbatim>\<open>end\<close> is named
  \<open>endp\<close> here.
\<close>

record Sel =
  start :: int
  endp :: int

record app_state =
  digits :: "slot list"
  selection :: Sel
  loading :: bool
  focused :: bool
  alerts :: "string list"
  pending :: "string list"
  timers :: nat

text \<open>
  \<open>focused\<close>: the last of \<^verbatim>\<open>inputRef.current?.focus()\<close> (\<open>True\<close>) and
  \<^verbatim>\<open>Keyboard.dismiss()\<close> (\<open>False\<close>) that was called. \<open>alerts\<close>: the messages passed
  to \<^verbatim>\<open>alert\<close>, oldest first. \<open>pending\<close>: for every call of \<^verbatim>\<open>handleSubmit\<close>
  still waiting at its \<^verbatim>\<open>await\<close>, the \<^verbatim>\<open>value\<close> its closure captured.
  \<open>timers\<close>: the number of callbacks scheduled by \<^verbatim>\<open>setTimeout(\<dots>, 50)\<close> that
  have not run yet.
\<close>

text \<open>\<^verbatim>\<open>Array(OTP_LENGTH).fill("")\<close>\<close>

definition empty_digits :: "slot list" where
  "empty_digits = replicate (nat OTP_LENGTH) (Some [])"

definition initial :: app_state where
  "initial = \<lparr>digits = empty_digits, selection = \<lparr>start = 0, endp = 0\<rparr>,
     loading = False, focused = False, alerts = [], pending = [], timers = 0\<rparr>"

text \<open>\<^verbatim>\<open>const value = useMemo(() => digits.join(""), [digits])\<close>\<close>

definition otp_value :: "app_state \<Rightarrow> string" where
  "otp_value s = join_empty (digits s)"

text \<open>\<^verbatim>\<open>const isComplete = value.length === OTP_LENGTH && !digits.includes("")\<close>\<close>

definition isComplete :: "app_state \<Rightarrow> bool" where
  "isComplete s = (int (length (otp_value s)) = OTP_LENGTH \<and> Some [] \<notin> set (digits s))"

subsection \<open>Handlers\<close>

text \<open>
  \<^verbatim>\<open>focusInput(pos?, selectOne?)\<close>: an omitted \<^verbatim>\<open>pos\<close> is \<open>None\<close>, an omitted
  \<^verbatim>\<open>selectOne\<close> is \<open>False\<close>. The function does not look at \<^verbatim>\<open>loading\<close>.
\<close>

definition focusInput :: "int option \<Rightarrow> bool \<Rightarrow> app_state \<Rightarrow> app_state" where
  "focusInput pos selectOne s =
     (case pos of
        None \<Rightarrow> s\<lparr>focused := True\<rparr>
      | Some p \<Rightarrow>
          (let clamped = max 0 (min OTP_LENGTH p) in
           if selectOne \<and> truthy (js_index (digits s) clamped)
           then s\<lparr>focused := True, selection := \<lparr>start = clamped, endp = clamped + 1\<rparr>\<rparr>
           else s\<lparr>focused := True, selection := \<lparr>start = clamped, endp = clamped\<rparr>\<rparr>))"

text \<open>
  \<^verbatim>\<open>raw.replace(/\D/g, "").slice(0, 1)\<close>. Without the \<^verbatim>\<open>u\<close> flag \<^verbatim>\<open>\D\<close> is
  everything but the ten ASCII digits, so the result does not depend on how characters
  beyond ASCII are encoded.
\<close>

definition is_digit :: "char \<Rightarrow> bool" where
  "is_digit c = (c \<in> set ''0123456789'')"

definition sanitize :: "string \<Rightarrow> string" where
  "sanitize raw = take 1 (filter is_digit raw)"

definition handleSelectionChange :: "int \<Rightarrow> int \<Rightarrow> app_state \<Rightarrow> app_state" where
  "handleSelectionChange sel_start sel_end s =
     (if loading s then s
      else s\<lparr>selection := \<lparr>start = max 0 (min OTP_LENGTH sel_start),
                             endp = max 0 (min OTP_LENGTH sel_end)\<rparr>\<rparr>)"

definition handleChangeText :: "string \<Rightarrow> app_state \<Rightarrow> app_state" where
  "handleChangeText nextText s =
     (if loading s then s
      else
        (let clean = sanitize nextText in
         if clean \<noteq> [] \<and> start (selection s) < OTP_LENGTH
         then
           (let updated = js_set (digits s) (start (selection s)) clean;
                nextPos = min (start (selection s) + 1) (OTP_LENGTH - 1)
            in s\<lparr>digits := updated, selection := \<lparr>start = nextPos, endp = nextPos\<rparr>\<rparr>)
         else s))"

text \<open>\<^verbatim>\<open>handleKeyPress(e)\<close>, the argument being \<^verbatim>\<open>e.nativeEvent.key\<close>.\<close>

definition handleKeyPress :: "string \<Rightarrow> app_state \<Rightarrow> app_state" where
  "handleKeyPress key s =
     (if loading s then s
      else if key = ''Backspace''
      then
        (if 0 \<le> start (selection s) \<and> start (selection s) < OTP_LENGTH
         then s\<lparr>digits := js_set (digits s) (start (selection s)) []\<rparr>
         else s)
      else s)"

definition handleBoxPress :: "int \<Rightarrow> app_state \<Rightarrow> app_state" where
  "handleBoxPress index s = (if loading s then s else focusInput (Some index) True s)"

text \<open>The row's \<^verbatim>\<open>onPress={() => focusInput(selection.start)}\<close>.\<close>

definition rowPress :: "app_state \<Rightarrow> app_state" where
  "rowPress s = focusInput (Some (start (selection s))) False s"

subsection \<open>Submission\<close>

text \<open>
  \<^verbatim>\<open>handleSubmit\<close> is an \<^verbatim>\<open>async\<close> function with one \<^verbatim>\<open>await\<close>, so it runs in
  three pieces. \<open>handleSubmit_begin\<close> is the part before the \<^verbatim>\<open>await\<close>:
  \<^verbatim>\<open>setLoading(true); Keyboard.dismiss()\<close>, and the closure's \<^verbatim>\<open>value\<close> is kept for
  the continuation.
\<close>

definition handleSubmit_begin :: "app_state \<Rightarrow> app_state" where
  "handleSubmit_begin s =
     s\<lparr>loading := True, focused := False, pending := pending s @ [otp_value s]\<rparr>"

text \<open>
  The awaited operation either resolves or throws into the \<^verbatim>\<open>catch\<close> clause. (The
  promise of the source is a timer of 1500 ms; the outcome is a parameter here so that
  the \<^verbatim>\<open>catch\<close> clause is a branch of the model.)
\<close>

datatype outcome = Resolved | Rejected

text \<open>
  \<open>handleSubmit_settle\<close> is the continuation after the \<^verbatim>\<open>await\<close>: the rest of the
  \<^verbatim>\<open>try\<close> block or the \<^verbatim>\<open>catch\<close> clause, followed by the \<^verbatim>\<open>finally\<close>
  clause, which clears \<^verbatim>\<open>loading\<close> and schedules the 50 ms callback.
\<close>

definition handleSubmit_settle :: "outcome \<Rightarrow> string \<Rightarrow> app_state \<Rightarrow> app_state" where
  "handleSubmit_settle oc v s =
     (let s1 = (case oc of
                  Resolved \<Rightarrow>
                    s\<lparr>alerts := alerts s @ [''Submitted code: '' @ v],
                      digits := empty_digits,
                      selection := \<lparr>start = 0, endp = 0\<rparr>\<rparr>
                | Rejected \<Rightarrow>
                    s\<lparr>alerts := alerts s @ [''Submission failed. Please try again.'']\<rparr>)
      in s1\<lparr>loading := False, timers := Suc (timers s1)\<rparr>)"

text \<open>The scheduled callback: \<^verbatim>\<open>inputRef.current?.focus(); setSelection({start: 0, end: 0})\<close>.\<close>

definition refocus_callback :: "app_state \<Rightarrow> app_state" where
  "refocus_callback s = s\<lparr>focused := True, selection := \<lparr>start = 0, endp = 0\<rparr>\<rparr>"

subsection \<open>Events and the update cycle\<close>

text \<open>
  What can happen to the component: the three events of the hidden field, a press on box
  \<open>i\<close>, on the row, or on the submit button, the awaited operation of the oldest
  submission settling, and a scheduled callback running.
\<close>

datatype event =
    ChangeText string
  | KeyPress string
  | SelectionChange int int
  | BoxPress int
  | RowPress
  | SubmitPress
  | Settle outcome
  | TimerFire

text \<open>
  The submit button is rendered only while \<^verbatim>\<open>loading\<close> is false and carries
  \<^verbatim>\<open>disabled={isComplete || loading}\<close>.
\<close>

fun handle :: "event \<Rightarrow> app_state \<Rightarrow> app_state" where
  "handle (ChangeText t) s = handleChangeText t s"
| "handle (KeyPress k) s = handleKeyPress k s"
| "handle (SelectionChange a b) s = handleSelectionChange a b s"
| "handle (BoxPress i) s = handleBoxPress i s"
| "handle RowPress s = rowPress s"
| "handle SubmitPress s = (if isComplete s \<or> loading s then s else handleSubmit_begin s)"
| "handle (Settle oc) s =
     (case pending s of
        [] \<Rightarrow> s
      | v # vs \<Rightarrow> handleSubmit_settle oc v (s\<lparr>pending := vs\<rparr>))"
| "handle TimerFire s =
     (if timers s = 0 then s else refocus_callback (s\<lparr>timers := timers s - 1\<rparr>))"

text \<open>
  \<^verbatim>\<open>useEffect(() => { if (isComplete && !loading) handleSubmit(); }, [isComplete, loading])\<close>:
  after a render the effect runs when one of its two dependencies differs from the
  previous render, \<open>prev\<close>.
\<close>

definition useEffect_run :: "app_state \<Rightarrow> app_state \<Rightarrow> app_state" where
  "useEffect_run prev s =
     (if (isComplete s, loading s) \<noteq> (isComplete prev, loading prev)
         \<and> isComplete s \<and> \<not> loading s
      then handleSubmit_begin s else s)"

text \<open>One update cycle: the handler of the event, the render, the effect.\<close>

definition dispatch :: "event \<Rightarrow> app_state \<Rightarrow> app_state" where
  "dispatch e s = useEffect_run s (handle e s)"

fun run :: "event list \<Rightarrow> app_state \<Rightarrow> app_state" where
  "run [] s = s"
| "run (e # es) s = run es (dispatch e s)"

subsection \<open>Invariants of the data model\<close>

text \<open>A slot holds \<^verbatim>\<open>""\<close> or one digit character.\<close>

fun slot_ok :: "slot \<Rightarrow> bool" where
  "slot_ok None = False"
| "slot_ok (Some []) = True"
| "slot_ok (Some [c]) = is_digit c"
| "slot_ok (Some (c # d # cs)) = False"

definition buffer_ok :: "slot list \<Rightarrow> bool" where
  "buffer_ok xs = (int (length xs) = OTP_LENGTH \<and> list_all slot_ok xs)"

definition sel_bounded :: "Sel \<Rightarrow> bool" where
  "sel_bounded sel =
     (0 \<le> start sel \<and> start sel \<le> OTP_LENGTH \<and> 0 \<le> endp sel \<and> endp sel \<le> OTP_LENGTH)"

definition sel_ok :: "Sel \<Rightarrow> bool" where
  "sel_ok sel = (0 \<le> start sel \<and> start sel \<le> endp sel \<and> endp sel \<le> OTP_LENGTH)"

text \<open>Every slot of the buffer holds a non-empty string.\<close>

definition all_filled :: "slot list \<Rightarrow> bool" where
  "all_filled xs = list_all (\<lambda>x. slot_text x \<noteq> []) xs"

text \<open>
  A selection-change event whose raw start does not exceed its raw end; every other
  event counts as ordered.
\<close>

fun ordered_event :: "event \<Rightarrow> bool" where
  "ordered_event (SelectionChange a b) = (a \<le> b)"
| "ordered_event _ = True"

subsection \<open>Concrete scenarios\<close>

text \<open>
  The digits 1 to 6 typed one after the other from the initial state (each keystroke
  advances the caret).
\<close>

definition typed_123456 :: "event list" where
  "typed_123456 = [ChangeText ''1'', ChangeText ''2'', ChangeText ''3'',
     ChangeText ''4'', ChangeText ''5'', ChangeText ''6'']"

text \<open>Three digits typed, then the caret moved back to box 1.\<close>

definition three_typed :: app_state where
  "three_typed = run [ChangeText ''1'', ChangeText ''2'', ChangeText ''3'',
     SelectionChange 1 1] initial"

text \<open>A selection-change event beyond the last box: the caret is clamped to 6.\<close>

definition caret_at_end :: app_state where
  "caret_at_end = handleSelectionChange 9 9 initial"

text \<open>
  Five digits typed, the filled box 1 tapped, then the submit button pressed while the
  code is still incomplete.
\<close>

definition tapped_then_submitted :: "event list" where
  "tapped_then_submitted = [ChangeText ''1'', ChangeText ''2'', ChangeText ''3'',
     ChangeText ''4'', ChangeText ''5'', BoxPress 1, SubmitPress]"

section \<open>Properties\<close>

subsection \<open>Sanitizing and array assignment\<close>

lemma sanitize_find:
  "sanitize raw = (case find is_digit raw of None \<Rightarrow> [] | Some c \<Rightarrow> [c])"
  by (induction raw) (auto simp: sanitize_def)

lemma sanitize_cases: "sanitize raw = [] \<or> (\<exists>c. sanitize raw = [c] \<and> is_digit c)"
proof (cases "filter is_digit raw")
  case Nil
  then show ?thesis by (simp add: sanitize_def)
next
  case (Cons c cs)
  then have "c \<in> set (filter is_digit raw)" by simp
  then have "is_digit c" by simp
  with Cons show ?thesis by (simp add: sanitize_def)
qed

lemma slot_ok_sanitize: "slot_ok (Some (sanitize raw))"
  using sanitize_cases [of raw] by auto

lemma sanitize_single: "sanitize [c] = (if is_digit c then [c] else [])"
  by (simp add: sanitize_def)

lemma js_set_in_range:
  "0 \<le> i \<Longrightarrow> i < int (length xs) \<Longrightarrow> js_set xs i v = xs[nat i := Some v]"
  by (simp add: js_set_def nat_less_iff)

lemma js_set_negative: "i < 0 \<Longrightarrow> js_set xs i v = xs"
  by (simp add: js_set_def)

lemma length_js_set:
  "i < int (length xs) \<Longrightarrow> length (js_set xs i v) = length xs"
  by (cases "i < 0") (simp_all add: js_set_def nat_less_iff)

lemma js_index_in_range:
  "0 \<le> i \<Longrightarrow> i < int (length xs) \<Longrightarrow> js_index xs i = xs ! nat i"
  by (simp add: js_index_def)

lemma truthy_slot_text: "truthy x \<longleftrightarrow> slot_text x \<noteq> []"
  by (cases x) simp_all

lemma truthy_js_index_less: "truthy (js_index xs i) \<Longrightarrow> i < int (length xs)"
  by (cases "0 \<le> i \<and> i < int (length xs)") (auto simp: js_index_def)

lemma list_all_update:
  "list_all P xs \<Longrightarrow> P x \<Longrightarrow> list_all P (xs[n := x])"
  by (induction xs arbitrary: n) (auto split: nat.splits)

subsection \<open>Preservation of the buffer invariant, handler by handler\<close>

lemma buffer_ok_js_set:
  assumes "buffer_ok xs" and "slot_ok (Some v)" and "i < OTP_LENGTH"
  shows "buffer_ok (js_set xs i v)"
proof (cases "i < 0")
  case True
  with assms(1) show ?thesis by (simp add: js_set_negative)
next
  case False
  with assms have "js_set xs i v = xs[nat i := Some v]"
    by (simp add: js_set_in_range buffer_ok_def)
  with assms show ?thesis by (simp add: buffer_ok_def list_all_update)
qed

lemma buffer_ok_empty_digits: "buffer_ok empty_digits"
  by (simp add: buffer_ok_def empty_digits_def OTP_LENGTH_def list_all_iff)

lemma digits_focusInput: "digits (focusInput pos one s) = digits s"
  by (simp add: focusInput_def Let_def split: option.splits)

lemma digits_handleSubmit_begin: "digits (handleSubmit_begin s) = digits s"
  by (simp add: handleSubmit_begin_def)

lemma digits_useEffect_run: "digits (useEffect_run prev s) = digits s"
  by (simp add: useEffect_run_def digits_handleSubmit_begin)

lemma buffer_ok_handleChangeText:
  "buffer_ok (digits s) \<Longrightarrow> buffer_ok (digits (handleChangeText t s))"
  by (simp add: handleChangeText_def Let_def buffer_ok_js_set slot_ok_sanitize)

lemma buffer_ok_handleKeyPress:
  "buffer_ok (digits s) \<Longrightarrow> buffer_ok (digits (handleKeyPress k s))"
  by (simp add: handleKeyPress_def buffer_ok_js_set)

lemma buffer_ok_handleSubmit_settle:
  "buffer_ok (digits s) \<Longrightarrow> buffer_ok (digits (handleSubmit_settle oc v s))"
  by (cases oc) (simp_all add: handleSubmit_settle_def buffer_ok_empty_digits)

lemma buffer_ok_handle:
  "buffer_ok (digits s) \<Longrightarrow> buffer_ok (digits (handle e s))"
proof (cases e)
  case (Settle oc)
  assume "buffer_ok (digits s)"
  with Settle show ?thesis
    by (cases "pending s") (simp_all add: buffer_ok_handleSubmit_settle)
qed (simp_all add: buffer_ok_handleChangeText buffer_ok_handleKeyPress
       handleSelectionChange_def handleBoxPress_def rowPress_def digits_focusInput
       digits_handleSubmit_begin refocus_callback_def)

lemma buffer_ok_dispatch:
  "buffer_ok (digits s) \<Longrightarrow> buffer_ok (digits (dispatch e s))"
  by (simp add: dispatch_def digits_useEffect_run buffer_ok_handle)

lemma buffer_ok_run:
  "buffer_ok (digits s) \<Longrightarrow> buffer_ok (digits (run es s))"
  by (induction es arbitrary: s) (simp_all add: buffer_ok_dispatch)

subsection \<open>Preservation of the selection bounds, handler by handler\<close>

lemma sel_ok_bounded: "sel_ok sel \<Longrightarrow> sel_bounded sel"
  by (simp add: sel_ok_def sel_bounded_def)

lemma sel_ok_origin: "sel_ok \<lparr>start = 0, endp = 0\<rparr>"
  by (simp add: sel_ok_def OTP_LENGTH_def)

lemma selection_useEffect_run: "selection (useEffect_run prev s) = selection s"
  by (simp add: useEffect_run_def handleSubmit_begin_def)

lemma selection_handleKeyPress: "selection (handleKeyPress k s) = selection s"
  by (simp add: handleKeyPress_def)

lemma sel_bounded_focusInput:
  assumes "int (length (digits s)) = OTP_LENGTH" and "sel_bounded (selection s)"
  shows "sel_bounded (selection (focusInput pos one s))"
proof (cases pos)
  case None
  with assms show ?thesis by (simp add: focusInput_def)
next
  case (Some p)
  show ?thesis
  proof (cases "one \<and> truthy (js_index (digits s) (max 0 (min OTP_LENGTH p)))")
    case True
    then have "max 0 (min OTP_LENGTH p) < OTP_LENGTH"
      using truthy_js_index_less assms(1) by fastforce
    with True Some show ?thesis
      by (auto simp: focusInput_def Let_def sel_bounded_def OTP_LENGTH_def)
  next
    case False
    with Some show ?thesis
      by (auto simp: focusInput_def Let_def sel_bounded_def OTP_LENGTH_def)
  qed
qed

lemma sel_ok_focusInput:
  assumes "int (length (digits s)) = OTP_LENGTH" and "sel_ok (selection s)"
  shows "sel_ok (selection (focusInput pos one s))"
proof (cases pos)
  case None
  with assms show ?thesis by (simp add: focusInput_def)
next
  case (Some p)
  show ?thesis
  proof (cases "one \<and> truthy (js_index (digits s) (max 0 (min OTP_LENGTH p)))")
    case True
    then have "max 0 (min OTP_LENGTH p) < OTP_LENGTH"
      using truthy_js_index_less assms(1) by fastforce
    with True Some show ?thesis
      by (auto simp: focusInput_def Let_def sel_ok_def OTP_LENGTH_def)
  next
    case False
    with Some show ?thesis
      by (auto simp: focusInput_def Let_def sel_ok_def OTP_LENGTH_def)
  qed
qed

lemma sel_bounded_handleSelectionChange:
  "sel_bounded (selection s) \<Longrightarrow> sel_bounded (selection (handleSelectionChange a b s))"
  by (auto simp: handleSelectionChange_def sel_bounded_def OTP_LENGTH_def)

lemma sel_ok_handleSelectionChange:
  "sel_ok (selection s) \<Longrightarrow> a \<le> b \<Longrightarrow> sel_ok (selection (handleSelectionChange a b s))"
  by (auto simp: handleSelectionChange_def sel_ok_def OTP_LENGTH_def)

lemma sel_bounded_handleChangeText:
  "sel_bounded (selection s) \<Longrightarrow> sel_bounded (selection (handleChangeText t s))"
  by (auto simp: handleChangeText_def Let_def sel_bounded_def OTP_LENGTH_def)

lemma sel_ok_handleChangeText:
  "sel_ok (selection s) \<Longrightarrow> sel_ok (selection (handleChangeText t s))"
  by (auto simp: handleChangeText_def Let_def sel_ok_def OTP_LENGTH_def)

lemma sel_ok_handleSubmit_settle:
  "sel_ok (selection s) \<Longrightarrow> sel_ok (selection (handleSubmit_settle oc v s))"
  by (cases oc) (simp_all add: handleSubmit_settle_def sel_ok_origin)

lemma sel_bounded_handleSubmit_settle:
  "sel_bounded (selection s) \<Longrightarrow> sel_bounded (selection (handleSubmit_settle oc v s))"
  by (cases oc) (simp_all add: handleSubmit_settle_def sel_ok_origin sel_ok_bounded)

lemma sel_bounded_handle:
  assumes "buffer_ok (digits s)" and "sel_bounded (selection s)"
  shows "sel_bounded (selection (handle e s))"
proof (cases e)
  case (Settle oc)
  with assms(2) show ?thesis
    by (cases "pending s") (simp_all add: sel_bounded_handleSubmit_settle)
next
  case TimerFire
  with assms(2) show ?thesis
    by (simp add: refocus_callback_def sel_ok_origin sel_ok_bounded)
qed (use assms in \<open>simp_all add: sel_bounded_handleChangeText selection_handleKeyPress
       sel_bounded_handleSelectionChange handleBoxPress_def rowPress_def
       sel_bounded_focusInput buffer_ok_def handleSubmit_begin_def\<close>)

lemma sel_ok_handle:
  assumes "buffer_ok (digits s)" and "sel_ok (selection s)" and "ordered_event e"
  shows "sel_ok (selection (handle e s))"
proof (cases e)
  case (Settle oc)
  with assms(2) show ?thesis
    by (cases "pending s") (simp_all add: sel_ok_handleSubmit_settle)
next
  case TimerFire
  with assms(2) show ?thesis
    by (simp add: refocus_callback_def sel_ok_origin)
qed (use assms in \<open>simp_all add: sel_ok_handleChangeText selection_handleKeyPress
       sel_ok_handleSelectionChange handleBoxPress_def rowPress_def
       sel_ok_focusInput buffer_ok_def handleSubmit_begin_def\<close>)

lemma sel_bounded_run:
  "buffer_ok (digits s) \<Longrightarrow> sel_bounded (selection s) \<Longrightarrow> sel_bounded (selection (run es s))"
  by (induction es arbitrary: s)
    (simp_all add: dispatch_def selection_useEffect_run digits_useEffect_run
      sel_bounded_handle buffer_ok_handle)

lemma sel_ok_run:
  "buffer_ok (digits s) \<Longrightarrow> sel_ok (selection s) \<Longrightarrow> list_all ordered_event es \<Longrightarrow>
     sel_ok (selection (run es s))"
  by (induction es arbitrary: s)
    (simp_all add: dispatch_def selection_useEffect_run digits_useEffect_run
      sel_ok_handle buffer_ok_handle)

subsection \<open>Completion and the effect\<close>

lemma length_join_filled:
  "list_all slot_ok xs \<Longrightarrow> all_filled xs \<Longrightarrow> length (join_empty xs) = length xs"
proof (induction xs)
  case Nil
  then show ?case by (simp add: join_empty_def)
next
  case (Cons x xs)
  from Cons.prems have "length (slot_text x) = 1"
    by (cases x rule: slot_ok.cases) (simp_all add: all_filled_def)
  with Cons show ?case by (simp add: join_empty_def all_filled_def)
qed

lemma filled_iff_no_empty:
  "list_all slot_ok xs \<Longrightarrow> all_filled xs \<longleftrightarrow> Some [] \<notin> set xs"
proof (induction xs)
  case Nil
  then show ?case by (simp add: all_filled_def)
next
  case (Cons x xs)
  then show ?case
    by (cases x rule: slot_ok.cases) (auto simp: all_filled_def)
qed

lemma isComplete_iff_all_filled:
  assumes "buffer_ok (digits s)"
  shows "isComplete s \<longleftrightarrow> all_filled (digits s)"
proof
  assume "isComplete s"
  with assms show "all_filled (digits s)"
    by (simp add: isComplete_def buffer_ok_def filled_iff_no_empty)
next
  assume f: "all_filled (digits s)"
  with assms have "length (otp_value s) = length (digits s)"
    by (simp add: otp_value_def buffer_ok_def length_join_filled)
  with assms f show "isComplete s"
    by (simp add: isComplete_def buffer_ok_def filled_iff_no_empty)
qed

lemma not_isComplete_empty: "digits s = empty_digits \<Longrightarrow> \<not> isComplete s"
  by (simp add: isComplete_def empty_digits_def OTP_LENGTH_def)

lemma useEffect_run_loading: "loading s \<Longrightarrow> useEffect_run prev s = s"
  by (simp add: useEffect_run_def)

lemma useEffect_run_incomplete: "\<not> isComplete s \<Longrightarrow> useEffect_run prev s = s"
  by (simp add: useEffect_run_def)

lemma useEffect_run_same: "useEffect_run s s = s"
  by (simp add: useEffect_run_def)

lemma settle_resolved_fields:
  "digits (handleSubmit_settle Resolved v s) = empty_digits"
  "loading (handleSubmit_settle Resolved v s) = False"
  "pending (handleSubmit_settle Resolved v s) = pending s"
  by (simp_all add: handleSubmit_settle_def)

lemma dispatch_settle_resolved:
  "pending s = v # vs \<Longrightarrow>
     dispatch (Settle Resolved) s = handleSubmit_settle Resolved v (s\<lparr>pending := vs\<rparr>)"
  by (simp add: dispatch_def useEffect_run_incomplete not_isComplete_empty
      settle_resolved_fields)

text \<open>
  The handlers of the hidden field and of the boxes return at once while \<^verbatim>\<open>loading\<close>
  is set.
\<close>

lemma gated_while_loading:
  assumes "loading s"
  shows "dispatch (ChangeText t) s = s" and "dispatch (KeyPress k) s = s"
    and "dispatch (SelectionChange a b) s = s" and "dispatch (BoxPress i) s = s"
    and "dispatch SubmitPress s = s"
  using assms
  by (simp_all add: dispatch_def handleChangeText_def handleKeyPress_def
      handleSelectionChange_def handleBoxPress_def useEffect_run_same)

lemma dispatch_while_loading:
  assumes "loading s" and "e \<noteq> Settle Rejected"
  shows "length (pending (dispatch e s)) \<le> length (pending s)"
proof (cases e)
  case (Settle oc)
  with assms(2) have oc: "oc = Resolved" by (cases oc) simp_all
  show ?thesis
  proof (cases "pending s")
    case Nil
    with Settle show ?thesis by (simp add: dispatch_def useEffect_run_same)
  next
    case (Cons v vs)
    with Settle oc show ?thesis
      by (simp add: dispatch_settle_resolved settle_resolved_fields)
  qed
next
  case RowPress
  with assms(1) show ?thesis
    by (simp add: dispatch_def rowPress_def focusInput_def Let_def useEffect_run_loading)
next
  case TimerFire
  with assms(1) show ?thesis
    by (simp add: dispatch_def refocus_callback_def useEffect_run_loading)
qed (use assms(1) in \<open>simp_all add: gated_while_loading\<close>)

text \<open>
  What the effect guarantees. On a well-formed buffer \<open>isComplete\<close> says that all 6
  slots are non-empty. Whenever an event makes \<open>isComplete\<close> true and the status is not
  Submitting after the handler, the same update cycle enters Submitting and starts one
  submission of the completed code, whatever the event was. The effect does nothing in
  the render that follows the start; while Submitting no event other than a failed
  settlement starts a further submission; and when a submission resolves the buffer is
  no longer complete, the status is Idle and no submission is started.
\<close>

lemma auto_submit_same_cycle:
  "(buffer_ok (digits s) \<longrightarrow> (isComplete s \<longleftrightarrow> all_filled (digits s)))
   \<and> (\<not> isComplete s \<and> isComplete (handle e s) \<and> \<not> loading (handle e s) \<longrightarrow>
        loading (dispatch e s)
        \<and> digits (dispatch e s) = digits (handle e s)
        \<and> pending (dispatch e s) = pending (handle e s) @ [otp_value (handle e s)])
   \<and> useEffect_run prev (handleSubmit_begin s) = handleSubmit_begin s
   \<and> (loading s \<and> e \<noteq> Settle Rejected \<longrightarrow>
        length (pending (dispatch e s)) \<le> length (pending s))
   \<and> (pending s \<noteq> [] \<longrightarrow>
        \<not> isComplete (dispatch (Settle Resolved) s)
        \<and> \<not> loading (dispatch (Settle Resolved) s)
        \<and> pending (dispatch (Settle Resolved) s) = tl (pending s))"
proof -
  have a: "loading (dispatch e s)
        \<and> digits (dispatch e s) = digits (handle e s)
        \<and> pending (dispatch e s) = pending (handle e s) @ [otp_value (handle e s)]"
    if "\<not> isComplete s" and "isComplete (handle e s)" and "\<not> loading (handle e s)"
    using that by (simp add: dispatch_def useEffect_run_def handleSubmit_begin_def)
  have b: "useEffect_run prev (handleSubmit_begin s) = handleSubmit_begin s"
    by (simp add: useEffect_run_loading handleSubmit_begin_def)
  have c: "\<not> isComplete (dispatch (Settle Resolved) s)
        \<and> \<not> loading (dispatch (Settle Resolved) s)
        \<and> pending (dispatch (Settle Resolved) s) = tl (pending s)"
    if "pending s \<noteq> []"
  proof -
    from that obtain v vs where p: "pending s = v # vs"
      by (cases "pending s") simp_all
    then show ?thesis
      by (simp add: dispatch_settle_resolved settle_resolved_fields not_isComplete_empty)
  qed
  from a b c show ?thesis
    by (simp add: isComplete_iff_all_filled dispatch_while_loading)
qed

lemma three_typed_eq:
  "three_typed =
     initial\<lparr>digits := [Some ''1'', Some ''2'', Some ''3'', Some [], Some [], Some []],
       selection := \<lparr>start = 1, endp = 1\<rparr>\<rparr>"
  by code_simp

section \<open>The claims\<close>

subsection \<open>C1: the error branch of a submission\<close>

text \<open>
  Claim C1 says that a failed submission shows a failure notification and then performs
  the same cleanup as a successful one, ending with the buffer all-empty. In the source
  \<^verbatim>\<open>setDigits(Array(OTP_LENGTH).fill(""))\<close> stands in the \<^verbatim>\<open>try\<close> block after the
  \<^verbatim>\<open>await\<close>, not in the \<^verbatim>\<open>finally\<close> clause, so the error branch skips it. Evaluated
  after the six digits 1 to 6 were typed and the submission started: the error branch
  shows the failure message, and the buffer still holds the six digits, also after the
  50 ms callback has run.
\<close>

theorem failed_submission_keeps_buffer:
  "loading (run typed_123456 initial)
   \<and> alerts (handle (Settle Rejected) (run typed_123456 initial))
        = [''Submission failed. Please try again.'']
   \<and> digits (handle (Settle Rejected) (run typed_123456 initial))
        = [Some ''1'', Some ''2'', Some ''3'', Some ''4'', Some ''5'', Some ''6'']
   \<and> digits (handle TimerFire (handle (Settle Rejected) (run typed_123456 initial)))
        = [Some ''1'', Some ''2'', Some ''3'', Some ''4'', Some ''5'', Some ''6'']
   \<and> digits (handle (Settle Rejected) (run typed_123456 initial)) \<noteq> empty_digits"
  by code_simp

subsection \<open>C2: the bounds of the selection\<close>

text \<open>
  Claim C2 as stated asks that after every raw selection-change event the stored
  selection has \<open>start \<le> end\<close>. \<^verbatim>\<open>handleSelectionChange\<close> clamps the two endpoints
  separately and never compares them: the event with raw start 5 and raw end 2, received
  in the initial state, stores the selection (5, 2).
\<close>

theorem selection_order_counterexample:
  "\<not> start (selection (dispatch (SelectionChange 5 2) initial))
       \<le> endp (selection (dispatch (SelectionChange 5 2) initial))"
  by (simp add: dispatch_def selection_useEffect_run handleSelectionChange_def initial_def
      OTP_LENGTH_def)

text \<open>
  Claim C2, amended. In every state reached from the initial one both endpoints of the
  selection lie in \<open>[0, 6]\<close>. If no selection-change event of the run had its raw start
  above its raw end, the selection also satisfies \<open>0 \<le> start \<le> end \<le> 6\<close>. A
  selection-change event handled while not submitting stores endpoints in \<open>[0, 6]\<close>
  whatever the raw values, and an ordered pair when the raw start does not exceed the
  raw end.
\<close>

theorem selection_clamped:
  "(\<forall>es. sel_bounded (selection (run es initial)))
   \<and> (\<forall>es. list_all ordered_event es \<longrightarrow> sel_ok (selection (run es initial)))
   \<and> (\<forall>a b s. \<not> loading s \<longrightarrow>
         sel_bounded (selection (handleSelectionChange a b s))
         \<and> (a \<le> b \<longrightarrow> sel_ok (selection (handleSelectionChange a b s))))"
proof -
  have b: "buffer_ok (digits initial)"
    by (simp add: initial_def buffer_ok_empty_digits)
  have o: "sel_ok (selection initial)"
    by (simp add: initial_def sel_ok_origin)
  have "sel_bounded (selection (handleSelectionChange a b s))" if "\<not> loading s" for a b s
    using that by (auto simp: handleSelectionChange_def sel_bounded_def OTP_LENGTH_def)
  moreover have "sel_ok (selection (handleSelectionChange a b s))"
    if "\<not> loading s" and "a \<le> b" for a b s
    using that by (auto simp: handleSelectionChange_def sel_ok_def OTP_LENGTH_def)
  ultimately show ?thesis
    using b o by (simp add: sel_bounded_run sel_ok_run sel_ok_bounded)
qed

theorem selection_clamped_witness:
  "list_all ordered_event [ChangeText ''1'', BoxPress 0, SelectionChange (- 3) 9]
   \<and> sel_ok (selection (run [ChangeText ''1'', BoxPress 0, SelectionChange (- 3) 9] initial))
   \<and> selection (run [ChangeText ''1'', BoxPress 0, SelectionChange (- 3) 9] initial)
        = \<lparr>start = 0, endp = 6\<rparr>
   \<and> \<not> loading initial
   \<and> sel_bounded (selection (handleSelectionChange 5 2 initial))"
proof -
  have l: "list_all ordered_event [ChangeText ''1'', BoxPress 0, SelectionChange (- 3) 9]"
    by simp
  have n: "\<not> loading initial"
    by (simp add: initial_def)
  have v: "selection (run [ChangeText ''1'', BoxPress 0, SelectionChange (- 3) 9] initial)
        = \<lparr>start = 0, endp = 6\<rparr>"
    by code_simp
  from selection_clamped l n
  have "sel_ok (selection (run [ChangeText ''1'', BoxPress 0, SelectionChange (- 3) 9] initial))"
    and "sel_bounded (selection (handleSelectionChange 5 2 initial))"
    by blast+
  with l n v show ?thesis by blast
qed

subsection \<open>C3: focus operations while submitting\<close>

text \<open>
  Claim C3 says that while the status is Submitting every editing and focus operation,
  the tap on the row included, leaves buffer and selection unchanged. The handlers of
  the hidden field and \<^verbatim>\<open>handleBoxPress\<close> test \<^verbatim>\<open>loading\<close> first (lemma
  \<open>gated_while_loading\<close>); the row's \<^verbatim>\<open>onPress\<close> calls \<^verbatim>\<open>focusInput\<close> directly,
  which does not. Evaluated after five digits were typed, the filled box 1 tapped and
  the submit button pressed: the status is Submitting with the selection (1, 2), and a
  tap on the row changes the selection to (1, 1).
\<close>

theorem row_press_while_submitting:
  "loading (run tapped_then_submitted initial)
   \<and> selection (run tapped_then_submitted initial) = \<lparr>start = 1, endp = 2\<rparr>
   \<and> selection (dispatch RowPress (run tapped_then_submitted initial))
        = \<lparr>start = 1, endp = 1\<rparr>"
  by code_simp

subsection \<open>C4: when the form clears after a successful submission\<close>

text \<open>
  Claim C4 says that the buffer is reset in a follow-up step scheduled after the
  submission resolves, not at the moment of resolution. In the source the continuation
  after the \<^verbatim>\<open>await\<close> calls \<^verbatim>\<open>alert\<close>, \<^verbatim>\<open>setDigits\<close> and \<^verbatim>\<open>setSelection\<close> one
  after the other; the callback scheduled by the \<^verbatim>\<open>finally\<close> clause only focuses
  the field and sets the selection again. Evaluated after the six digits 1 to 6 were
  typed: in the update cycle in which the submission resolves the success message is
  shown and the buffer is already all-empty with the selection (0, 0), while the
  scheduled callback has not run yet.
\<close>

theorem buffer_cleared_at_resolution:
  "loading (run typed_123456 initial)
   \<and> timers (run typed_123456 initial) = 0
   \<and> alerts (dispatch (Settle Resolved) (run typed_123456 initial))
        = [''Submitted code: 123456'']
   \<and> digits (dispatch (Settle Resolved) (run typed_123456 initial))
        = [Some [], Some [], Some [], Some [], Some [], Some []]
   \<and> selection (dispatch (Settle Resolved) (run typed_123456 initial))
        = \<lparr>start = 0, endp = 0\<rparr>
   \<and> timers (dispatch (Settle Resolved) (run typed_123456 initial)) = 1"
  by code_simp

subsection \<open>C5: typing into the hidden field\<close>

text \<open>
  Claim C5. \<open>sanitize\<close> keeps the first digit of the raw text, if there is one, and
  nothing else. While not submitting, with a buffer of 6 slots and a caret at
  \<open>start \<ge> 0\<close>: if the sanitized text is non-empty and \<open>start < 6\<close>, the slot at
  \<open>start\<close> is set to it and the selection becomes the collapsed caret at
  \<open>min (start + 1) 5\<close>, nothing else changing; if the sanitized text is empty the state
  is unchanged; so typing one non-digit character changes nothing.
\<close>

theorem handleChangeText_behaviour:
  assumes "\<not> loading s"
    and "int (length (digits s)) = OTP_LENGTH"
    and "0 \<le> start (selection s)"
  shows "sanitize raw = (case find is_digit raw of None \<Rightarrow> [] | Some c \<Rightarrow> [c])
    \<and> (sanitize raw \<noteq> [] \<and> start (selection s) < 6 \<longrightarrow>
          handleChangeText raw s =
            s\<lparr>digits := (digits s)[nat (start (selection s)) := Some (sanitize raw)],
              selection := \<lparr>start = min (start (selection s) + 1) 5,
                             endp = min (start (selection s) + 1) 5\<rparr>\<rparr>)
    \<and> (sanitize raw = [] \<longrightarrow> handleChangeText raw s = s)
    \<and> (\<not> is_digit c \<longrightarrow> handleChangeText [c] s = s)"
proof -
  have "handleChangeText raw s =
          s\<lparr>digits := (digits s)[nat (start (selection s)) := Some (sanitize raw)],
            selection := \<lparr>start = min (start (selection s) + 1) 5,
                           endp = min (start (selection s) + 1) 5\<rparr>\<rparr>"
    if "sanitize raw \<noteq> []" and "start (selection s) < 6"
    using that assms
    by (simp add: handleChangeText_def Let_def js_set_in_range OTP_LENGTH_def)
  moreover have "handleChangeText raw s = s" if "sanitize raw = []"
    using that by (simp add: handleChangeText_def)
  moreover have "handleChangeText [c] s = s" if "\<not> is_digit c"
    using that by (simp add: handleChangeText_def sanitize_single)
  ultimately show ?thesis
    using sanitize_find [of raw] by blast
qed

theorem handleChangeText_behaviour_witness:
  "\<not> loading initial \<and> int (length (digits initial)) = OTP_LENGTH
   \<and> 0 \<le> start (selection initial)
   \<and> sanitize ''a4b7'' = ''4''
   \<and> handleChangeText ''a4b7'' initial =
        initial\<lparr>digits := [Some ''4'', Some [], Some [], Some [], Some [], Some []],
                selection := \<lparr>start = 1, endp = 1\<rparr>\<rparr>
   \<and> handleChangeText ''x'' initial = initial"
proof -
  have h: "\<not> loading initial" "int (length (digits initial)) = OTP_LENGTH"
    "0 \<le> start (selection initial)"
    by (simp_all add: initial_def empty_digits_def OTP_LENGTH_def)
  have c: "sanitize ''a4b7'' = ''4''" "\<not> is_digit CHR ''x''"
    by (simp_all add: sanitize_def is_digit_def)
  have d: "(digits initial)[nat (start (selection initial)) := Some ''4'']
      = [Some ''4'', Some [], Some [], Some [], Some [], Some []]"
    "min (start (selection initial) + 1) 5 = 1" "start (selection initial) < 6"
    by (simp_all add: initial_def empty_digits_def OTP_LENGTH_def numeral_eq_Suc)
  from handleChangeText_behaviour [OF h, of "''a4b7''" "CHR ''x''"] c d h
  show ?thesis by simp
qed

subsection \<open>C6: backspace\<close>

text \<open>
  Claim C6. While not submitting, for every buffer of 6 slots and every selection with
  \<open>0 \<le> start < 6\<close>, the Backspace key sets the slot at \<open>start\<close> to the empty string
  and changes nothing else: the buffer keeps its length, every other slot keeps its
  value at its position, and the selection is unchanged.
\<close>

theorem handleKeyPress_backspace:
  assumes "\<not> loading s"
    and "int (length (digits s)) = OTP_LENGTH"
    and "0 \<le> start (selection s)" and "start (selection s) < 6"
  shows "handleKeyPress ''Backspace'' s
           = s\<lparr>digits := (digits s)[nat (start (selection s)) := Some []]\<rparr>
    \<and> length (digits (handleKeyPress ''Backspace'' s)) = length (digits s)
    \<and> digits (handleKeyPress ''Backspace'' s) ! nat (start (selection s)) = Some []
    \<and> (\<forall>j < length (digits s). j \<noteq> nat (start (selection s)) \<longrightarrow>
          digits (handleKeyPress ''Backspace'' s) ! j = digits s ! j)
    \<and> selection (handleKeyPress ''Backspace'' s) = selection s"
proof -
  have eq: "handleKeyPress ''Backspace'' s
           = s\<lparr>digits := (digits s)[nat (start (selection s)) := Some []]\<rparr>"
    using assms by (simp add: handleKeyPress_def js_set_in_range OTP_LENGTH_def)
  have "nat (start (selection s)) < length (digits s)"
    using assms by (simp add: OTP_LENGTH_def nat_less_iff)
  then show ?thesis
    by (simp add: eq)
qed

theorem handleKeyPress_backspace_witness:
  "\<not> loading three_typed \<and> int (length (digits three_typed)) = OTP_LENGTH
   \<and> 0 \<le> start (selection three_typed) \<and> start (selection three_typed) < 6
   \<and> digits three_typed = [Some ''1'', Some ''2'', Some ''3'', Some [], Some [], Some []]
   \<and> digits (handleKeyPress ''Backspace'' three_typed)
        = [Some ''1'', Some [], Some ''3'', Some [], Some [], Some []]
   \<and> selection (handleKeyPress ''Backspace'' three_typed) = \<lparr>start = 1, endp = 1\<rparr>"
proof -
  have h: "\<not> loading three_typed" "int (length (digits three_typed)) = OTP_LENGTH"
    "0 \<le> start (selection three_typed)" "start (selection three_typed) < 6"
    by (simp_all add: three_typed_eq initial_def OTP_LENGTH_def)
  have d: "digits three_typed = [Some ''1'', Some ''2'', Some ''3'', Some [], Some [], Some []]"
    "selection three_typed = \<lparr>start = 1, endp = 1\<rparr>"
    by (simp_all add: three_typed_eq)
  from handleKeyPress_backspace [OF h]
  have "handleKeyPress ''Backspace'' three_typed
           = three_typed\<lparr>digits := (digits three_typed)[nat (start (selection three_typed)) := Some []]\<rparr>"
    by blast
  then show ?thesis using h d by simp
qed

subsection \<open>C7: the buffer invariant\<close>

text \<open>
  Claim C7. The buffer invariant holds in the initial state and every update cycle
  preserves it, whatever the event: the buffer always has exactly 6 slots, each holding
  the empty string or one digit character, so it is never resized and never holds an
  \<^verbatim>\<open>undefined\<close> element. Hence it holds in every state reached from the initial
  one.
\<close>

theorem buffer_invariant:
  "buffer_ok (digits initial)
   \<and> (\<forall>e s. buffer_ok (digits s) \<longrightarrow> buffer_ok (digits (dispatch e s)))
   \<and> (\<forall>es. buffer_ok (digits (run es initial)))"
proof -
  have "buffer_ok (digits initial)"
    by (simp add: initial_def buffer_ok_empty_digits)
  then show ?thesis
    by (simp add: buffer_ok_dispatch buffer_ok_run)
qed

theorem buffer_invariant_witness:
  "buffer_ok (digits initial)
   \<and> buffer_ok (digits (dispatch (ChangeText ''7'') initial))
   \<and> digits (dispatch (ChangeText ''7'') initial)
       = [Some ''7'', Some [], Some [], Some [], Some [], Some []]"
proof -
  have "digits (dispatch (ChangeText ''7'') initial)
       = [Some ''7'', Some [], Some [], Some [], Some [], Some []]"
    by code_simp
  moreover from buffer_invariant have "buffer_ok (digits initial)"
    and "buffer_ok (digits (dispatch (ChangeText ''7'') initial))"
    by blast+
  ultimately show ?thesis by blast
qed

subsection \<open>C8: automatic submission on completion\<close>

text \<open>
  Claim C8 says that the system enters Submitting in the update cycle in which the
  buffer becomes complete, and never enters Submitting twice for the same completion.
  The first part holds, and so does the second as long as the submission resolves (lemma
  \<open>auto_submit_same_cycle\<close>). When the submission fails the error branch keeps the
  buffer (see C1) and clears \<^verbatim>\<open>loading\<close>, so the effect, whose dependency
  \<^verbatim>\<open>loading\<close> has changed, finds the code complete and calls \<^verbatim>\<open>handleSubmit\<close>
  again. Evaluated after the six digits 1 to 6 were typed: the first submission has ended
  with the failure message, the buffer is the same, and the status is Submitting again
  with a second submission of the same code under way.
\<close>

theorem resubmitted_after_failure:
  "loading (run typed_123456 initial)
   \<and> pending (run typed_123456 initial) = [''123456'']
   \<and> alerts (dispatch (Settle Rejected) (run typed_123456 initial))
        = [''Submission failed. Please try again.'']
   \<and> digits (dispatch (Settle Rejected) (run typed_123456 initial))
        = digits (run typed_123456 initial)
   \<and> loading (dispatch (Settle Rejected) (run typed_123456 initial))
   \<and> pending (dispatch (Settle Rejected) (run typed_123456 initial)) = [''123456'']"
  by code_simp

subsection \<open>C9: tapping a box\<close>

text \<open>
  Claim C9. While not submitting, for every buffer of 6 slots and every index \<open>i\<close> with
  \<open>0 \<le> i < 6\<close>, tapping box \<open>i\<close> sets the selection to \<open>(i, i + 1)\<close> when slot \<open>i\<close>
  is non-empty and to the collapsed caret \<open>(i, i)\<close> when it is empty; the buffer is
  untouched, and a digit typed next replaces the content of slot \<open>i\<close> and of no other
  slot.
\<close>

theorem handleBoxPress_selection:
  assumes "\<not> loading s"
    and "int (length (digits s)) = OTP_LENGTH"
    and "0 \<le> i" and "i < 6"
  shows "selection (handleBoxPress i s)
           = (if slot_text (digits s ! nat i) \<noteq> []
              then \<lparr>start = i, endp = i + 1\<rparr> else \<lparr>start = i, endp = i\<rparr>)
    \<and> digits (handleBoxPress i s) = digits s
    \<and> (is_digit d \<longrightarrow>
          digits (handleChangeText [d] (handleBoxPress i s)) = (digits s)[nat i := Some [d]])"
proof -
  have cl: "max 0 (min OTP_LENGTH i) = i"
    using assms by (simp add: OTP_LENGTH_def)
  have ix: "js_index (digits s) i = digits s ! nat i"
    using assms by (simp add: js_index_in_range OTP_LENGTH_def)
  have sel: "selection (handleBoxPress i s)
           = (if slot_text (digits s ! nat i) \<noteq> []
              then \<lparr>start = i, endp = i + 1\<rparr> else \<lparr>start = i, endp = i\<rparr>)"
    using assms(1) by (simp add: handleBoxPress_def focusInput_def cl ix truthy_slot_text)
  have dg: "digits (handleBoxPress i s) = digits s"
    by (simp add: handleBoxPress_def digits_focusInput)
  have ld: "loading (handleBoxPress i s) = loading s"
    by (simp add: handleBoxPress_def focusInput_def Let_def)
  have st: "start (selection (handleBoxPress i s)) = i"
    by (simp add: sel)
  have "digits (handleChangeText [d] (handleBoxPress i s)) = (digits s)[nat i := Some [d]]"
    if "is_digit d"
    using that assms
    by (simp add: handleChangeText_def Let_def sanitize_single ld st dg js_set_in_range
        OTP_LENGTH_def)
  with sel dg show ?thesis by blast
qed

theorem handleBoxPress_selection_witness:
  "\<not> loading three_typed \<and> int (length (digits three_typed)) = OTP_LENGTH
   \<and> selection (handleBoxPress 2 three_typed) = \<lparr>start = 2, endp = 3\<rparr>
   \<and> selection (handleBoxPress 4 three_typed) = \<lparr>start = 4, endp = 4\<rparr>
   \<and> digits (handleChangeText ''8'' (handleBoxPress 2 three_typed))
        = [Some ''1'', Some ''2'', Some ''8'', Some [], Some [], Some []]"
proof -
  have h: "\<not> loading three_typed" "int (length (digits three_typed)) = OTP_LENGTH"
    by (simp_all add: three_typed_eq initial_def OTP_LENGTH_def)
  have d: "digits three_typed = [Some ''1'', Some ''2'', Some ''3'', Some [], Some [], Some []]"
    by (simp add: three_typed_eq)
  have e: "is_digit CHR ''8''"
    by (simp add: is_digit_def)
  from handleBoxPress_selection [OF h, of 2 "CHR ''8''"]
    handleBoxPress_selection [OF h, of 4 "CHR ''8''"] e
  show ?thesis using h by (simp add: d)
qed

subsection \<open>C10: no write outside the six slots\<close>

text \<open>
  Claim C10. For every buffer, if \<open>selection.start \<ge> 6\<close> then a key press (Backspace or
  any other key) and a text change with any input leave the whole state unchanged: the
  assignment \<^verbatim>\<open>updated[selection.start] = \<dots>\<close> is not reached. At every selection
  value, negative ones included, both handlers return a state, and a buffer of 6 slots
  still has 6 slots afterwards.
\<close>

theorem out_of_range_write_unreachable:
  "(6 \<le> start (selection s) \<longrightarrow>
      digits (handleKeyPress ''Backspace'' s) = digits s
      \<and> handleKeyPress key s = s
      \<and> handleChangeText raw s = s)
   \<and> (int (length (digits s)) = OTP_LENGTH \<longrightarrow>
        length (digits (handleKeyPress key s)) = length (digits s)
        \<and> length (digits (handleChangeText raw s)) = length (digits s))"
proof -
  have "handleKeyPress k s = s" if "6 \<le> start (selection s)" for k
    using that by (simp add: handleKeyPress_def OTP_LENGTH_def)
  moreover have "handleChangeText raw s = s" if "6 \<le> start (selection s)"
    using that by (simp add: handleChangeText_def OTP_LENGTH_def)
  moreover have "length (digits (handleKeyPress key s)) = length (digits s)"
    if "int (length (digits s)) = OTP_LENGTH"
    using that by (simp add: handleKeyPress_def length_js_set)
  moreover have "length (digits (handleChangeText raw s)) = length (digits s)"
    if "int (length (digits s)) = OTP_LENGTH"
    using that by (simp add: handleChangeText_def Let_def length_js_set)
  ultimately show ?thesis by simp
qed

theorem out_of_range_write_unreachable_witness:
  "6 \<le> start (selection caret_at_end)
   \<and> int (length (digits caret_at_end)) = OTP_LENGTH
   \<and> digits (handleKeyPress ''Backspace'' caret_at_end) = digits caret_at_end
   \<and> handleChangeText ''3'' caret_at_end = caret_at_end
   \<and> length (digits (handleChangeText ''3'' caret_at_end)) = 6"
proof -
  have h: "6 \<le> start (selection caret_at_end)"
    "int (length (digits caret_at_end)) = OTP_LENGTH" "length (digits caret_at_end) = 6"
    by (simp_all add: caret_at_end_def handleSelectionChange_def initial_def
        empty_digits_def OTP_LENGTH_def)
  from out_of_range_write_unreachable [of caret_at_end "''Backspace''" "''3''"] h
  show ?thesis by simp
qed

end
